theory Spec2Isabelle
  imports Main
begin

section \<open>ECMAScript conversions the component relies on\<close>

text \<open>
  The component is TypeScript. Strings are modelled as \<^typ>\<open>string\<close> (code units
  below 256), numbers as the integers they denote (array indices as \<^typ>\<open>nat\<close>, row
  values as \<^typ>\<open>int\<close>), for which \<open>Number::toString\<close> is the plain decimal
  numeral (magnitudes below \<open>10^21\<close>). Fractional numbers are outside the model.
\<close>

definition digit_char :: "nat \<Rightarrow> char" where
  "digit_char d = ''0123456789abcdef'' ! d"

fun dec :: "nat \<Rightarrow> string" where
  "dec n = (if n < 10 then [digit_char n] else dec (n div 10) @ [digit_char (n mod 10)])"

declare dec.simps [simp del]

text \<open>
  \<open>Number::toString\<close> on an integer of magnitude below \<open>10^21\<close>: the plain decimal
  numeral, with a sign. The exponent notation of larger magnitudes and the fractions are
  not modelled.
\<close>

definition Number_toString :: "int \<Rightarrow> string" where
  "Number_toString i = (if i < 0 then CHR ''-'' # dec (nat (- i)) else dec (nat i))"

datatype jsvalue = VString string | VNumber int | VBool bool | VNull

text \<open>\<open>ToString\<close>: what a template literal \<open>`${v}`\<close> and \<open>String(v)\<close> both apply.\<close>

fun ToString :: "jsvalue \<Rightarrow> string" where
  "ToString (VString s) = s"
| "ToString (VNumber i) = Number_toString i"
| "ToString (VBool b) = (if b then ''true'' else ''false'')"
| "ToString VNull = ''null''"

text \<open>\<open>Array.prototype.join\<close> on an array of strings.\<close>

fun join :: "string \<Rightarrow> string list \<Rightarrow> string" where
  "join sep [] = []"
| "join sep [x] = x"
| "join sep (x # y # ys) = x @ sep @ join sep (y # ys)"

text \<open>
  \<open>QuoteJSONString\<close> of \<open>JSON.stringify\<close>: the short escapes, \<open>\u00xx\<close> for the
  other control characters, every other code unit as it is.
\<close>

definition UnicodeEscape :: "char \<Rightarrow> string" where
  "UnicodeEscape c =
     [CHR 0x5C, CHR ''u'', CHR ''0'', CHR ''0'',
      digit_char (of_char c div 16), digit_char (of_char c mod 16)]"

definition json_escape_char :: "char \<Rightarrow> string" where
  "json_escape_char c =
     (if c = CHR 0x08 then [CHR 0x5C, CHR ''b'']
      else if c = CHR 0x09 then [CHR 0x5C, CHR ''t'']
      else if c = CHR 0x0A then [CHR 0x5C, CHR ''n'']
      else if c = CHR 0x0C then [CHR 0x5C, CHR ''f'']
      else if c = CHR 0x0D then [CHR 0x5C, CHR ''r'']
      else if c = CHR 0x22 then [CHR 0x5C, CHR 0x22]
      else if c = CHR 0x5C then [CHR 0x5C, CHR 0x5C]
      else if (of_char c :: nat) < 32 then UnicodeEscape c
      else [c])"

definition QuoteJSONString :: "string \<Rightarrow> string" where
  "QuoteJSONString s = CHR 0x22 # concat (map json_escape_char s) @ [CHR 0x22]"

text \<open>\<open>SerializeJSONProperty\<close> on a primitive value.\<close>

fun json_value :: "jsvalue \<Rightarrow> string" where
  "json_value (VString s) = QuoteJSONString s"
| "json_value (VNumber i) = Number_toString i"
| "json_value (VBool b) = (if b then ''true'' else ''false'')"
| "json_value VNull = ''null''"

text \<open>
  \<open>SerializeJSONObject\<close> with gap \<open>"  "\<close> at the top level, on the list of the
  object's own enumerable entries: \<open>JSON.stringify(obj, null, 2)\<close>.
\<close>

definition json_member :: "string \<times> jsvalue \<Rightarrow> string" where
  "json_member e = QuoteJSONString (fst e) @ '': '' @ json_value (snd e)"

definition SerializeJSONObject :: "(string \<times> jsvalue) list \<Rightarrow> string" where
  "SerializeJSONObject es =
     (if es = [] then ''{}''
      else ''{'' @ [CHR 0x0A] @ ''  '' @ join ('','' @ [CHR 0x0A] @ ''  '') (map json_member es)
           @ [CHR 0x0A] @ ''}'')"

subsection \<open>A plain object with primitive values\<close>

text \<open>
  \<open>const obj = {}\<close> followed by assignments \<open>obj[k] = v\<close>. An ordinary object keeps
  its own properties in creation order; assigning to an existing key replaces the value
  in place. The key \<open>__proto__\<close> reaches the accessor inherited from
  \<open>Object.prototype\<close>: it creates no own property, ignores a primitive that is not
  \<open>null\<close> and removes the prototype on \<open>null\<close> (after which the accessor is no
  longer inherited).
\<close>

record jsobject =
  proto_is_null :: bool
  own_props :: "(string \<times> jsvalue) list"

definition empty_object :: jsobject where
  "empty_object = \<lparr>proto_is_null = False, own_props = []\<rparr>"

fun put_prop :: "string \<Rightarrow> jsvalue \<Rightarrow> (string \<times> jsvalue) list \<Rightarrow> (string \<times> jsvalue) list" where
  "put_prop k v [] = [(k, v)]"
| "put_prop k v (p # ps) = (if fst p = k then (k, v) # ps else p # put_prop k v ps)"

definition obj_set :: "jsobject \<Rightarrow> string \<Rightarrow> jsvalue \<Rightarrow> jsobject" where
  "obj_set ob k v =
     (if k = ''__proto__'' \<and> \<not> proto_is_null ob
      then (if v = VNull then ob\<lparr>proto_is_null := True\<rparr> else ob)
      else ob\<lparr>own_props := put_prop k v (own_props ob)\<rparr>)"

text \<open>
  \<open>OrdinaryOwnPropertyKeys\<close>: the keys that are array indices (canonical decimal
  numerals below \<open>2^32 - 1\<close>) in ascending numeric order, then the other keys in
  creation order.
\<close>

definition digit_value :: "char \<Rightarrow> nat" where
  "digit_value c = of_char c - 48"

definition string_to_nat :: "string \<Rightarrow> nat" where
  "string_to_nat s = foldl (\<lambda>a c. 10 * a + digit_value c) 0 s"

definition is_array_index :: "string \<Rightarrow> bool" where
  "is_array_index k = (string_to_nat k < 4294967295 \<and> dec (string_to_nat k) = k)"

definition own_entries :: "jsobject \<Rightarrow> (string \<times> jsvalue) list" where
  "own_entries ob =
     sort_key (\<lambda>e. string_to_nat (fst e)) (filter (\<lambda>e. is_array_index (fst e)) (own_props ob))
     @ filter (\<lambda>e. \<not> is_array_index (fst e)) (own_props ob)"

definition JSON_stringify_object :: "jsobject \<Rightarrow> string" where
  "JSON_stringify_object ob = SerializeJSONObject (own_entries ob)"

section \<open>The data model of the modal\<close>

datatype row_type = TString | TNumber | TBoolean | TNull | TObject | TArray

text \<open>A row of \<open>NodeData["text"]\<close>; an absent (\<open>undefined\<close> or \<open>null\<close>) key is \<open>None\<close>.\<close>

record row =
  key :: "string option"
  value_row :: jsvalue
  type_row :: row_type

text \<open>A segment of a \<open>JSONPath\<close>: \<open>string | number\<close>.\<close>

datatype segment = Key string | Index nat

section \<open>normalizeNodeData\<close>

text \<open>\<open>row.key\<close> in a condition: \<open>undefined\<close>, \<open>null\<close> and \<open>""\<close> are falsy.\<close>

definition truthy :: "string option \<Rightarrow> bool" where
  "truthy k = (case k of None \<Rightarrow> False | Some s \<Rightarrow> s \<noteq> [])"

text \<open>The body of the \<open>forEach\<close> callback, on the object built so far.\<close>

definition forEach_row :: "jsobject \<Rightarrow> row \<Rightarrow> jsobject" where
  "forEach_row ob r =
     (if type_row r \<noteq> TArray \<and> type_row r \<noteq> TObject
      then (case key r of
              None \<Rightarrow> ob
            | Some k \<Rightarrow> if k \<noteq> [] then obj_set ob k (value_row r) else ob)
      else ob)"

text \<open>The argument is \<open>None\<close> when \<open>nodeRows\<close> is \<open>undefined\<close> (the \<open>!nodeRows\<close> test).\<close>

definition normalizeNodeData :: "row list option \<Rightarrow> string" where
  "normalizeNodeData nodeRows =
     (case nodeRows of
        None \<Rightarrow> ''{}''
      | Some rows \<Rightarrow>
          if length rows = 0 then ''{}''
          else if length rows = 1 \<and> \<not> truthy (key (hd rows)) then ToString (value_row (hd rows))
          else JSON_stringify_object (foldl forEach_row empty_object rows))"

section \<open>jsonPathToString\<close>

text \<open>The \<open>map\<close> callback followed by the \<open>ToString\<close> that \<open>join\<close> applies.\<close>

fun segment_text :: "segment \<Rightarrow> string" where
  "segment_text (Index n) = dec n"
| "segment_text (Key k) = [CHR 0x22] @ k @ [CHR 0x22]"

definition jsonPathToString :: "segment list option \<Rightarrow> string" where
  "jsonPathToString path =
     (case path of
        None \<Rightarrow> ''$''
      | Some p \<Rightarrow>
          if length p = 0 then ''$''
          else ''$['' @ join '']['' (map segment_text p) @ '']'')"


section \<open>The selected node and the stores\<close>

text \<open>\<open>NodeData\<close>: the rows and the optional path (\<open>None\<close> when \<open>undefined\<close>).\<close>

record node_data =
  text_node :: "row list"
  path :: "segment list option"

text \<open>
  The state the Save handler reads and writes: \<open>useJson\<close>'s \<open>json\<close>, the state of
  \<open>useFile\<close> (opaque), \<open>useGraph\<close>'s \<open>nodes\<close> and \<open>selectedNode\<close>, and the
  component's own \<open>editing\<close>, \<open>nameValue\<close> and \<open>colorValue\<close>.
\<close>

record 'f stores =
  json :: "string option"
  fileStore :: 'f
  nodes :: "node_data list"
  selectedNode :: "node_data option"
  editing :: bool
  nameValue :: string
  colorValue :: string

text \<open>
  What the handler calls and the source file does not contain: \<open>modify\<close> and
  \<open>applyEdits\<close> of the jsonc-parser package (the formatting options are the same
  constant at both calls), the graph parser that \<open>setJson\<close> runs, and \<open>setContents\<close>
  of the file store. \<open>None\<close> is a thrown exception.
\<close>

record ('e, 'f) env =
  modify :: "string \<Rightarrow> segment list \<Rightarrow> string \<Rightarrow> 'e option"
  applyEdits :: "string \<Rightarrow> 'e \<Rightarrow> string option"
  parser :: "string \<Rightarrow> node_data list"
  setContents :: "string \<Rightarrow> bool \<Rightarrow> bool \<Rightarrow> 'f \<Rightarrow> 'f option"

section \<open>The Save handler\<close>

text \<open>\<open>JSON.stringify\<close> of a path; \<open>JSON.stringify(undefined)\<close> is \<open>undefined\<close>.\<close>

fun segment_json :: "segment \<Rightarrow> string" where
  "segment_json (Index n) = dec n"
| "segment_json (Key k) = QuoteJSONString k"

definition JSON_stringify_path :: "segment list option \<Rightarrow> string option" where
  "JSON_stringify_path v =
     (case v of
        None \<Rightarrow> None
      | Some p \<Rightarrow> Some (''['' @ join '','' (map segment_json p) @ '']''))"

text \<open>One field: \<open>const edits = modify(updated, p, v, ...); updated = applyEdits(updated, edits)\<close>.\<close>

definition patch_field :: "('e, 'f) env \<Rightarrow> string \<Rightarrow> segment list \<Rightarrow> string \<Rightarrow> string option" where
  "patch_field env updated p v =
     (case modify env updated p v of
        None \<Rightarrow> None
      | Some edits \<Rightarrow> applyEdits env updated edits)"

text \<open>\<open>json ?? ""\<close> and \<open>nodeData.path ?? []\<close>.\<close>

definition json_or_empty :: "'f stores \<Rightarrow> string" where
  "json_or_empty st = (case json st of None \<Rightarrow> [] | Some j \<Rightarrow> j)"

definition path_or_empty :: "node_data \<Rightarrow> segment list" where
  "path_or_empty nodeData = (case path nodeData of None \<Rightarrow> [] | Some p \<Rightarrow> p)"

text \<open>
  The two field edits, up to the call of \<open>setJson\<close>. The draft values are strings
  (\<open>useState<string>\<close>), so both \<open>typeof ... === "string"\<close> tests hold.
\<close>

definition edited_text :: "('e, 'f) env \<Rightarrow> 'f stores \<Rightarrow> node_data \<Rightarrow> string option" where
  "edited_text env st nodeData =
     (let updated = json_or_empty st;
          basePath = path_or_empty nodeData
      in case patch_field env updated (basePath @ [Key ''name'']) (nameValue st) of
           None \<Rightarrow> None
         | Some updated1 \<Rightarrow> patch_field env updated1 (basePath @ [Key ''color'']) (colorValue st))"

text \<open>
  Modelled from the spec: \<open>setJson\<close> of the document store, which is not in the source
  file. The document store takes the new text and the tree store is rebuilt from it.
\<close>

definition setJson :: "('e, 'f) env \<Rightarrow> string \<Rightarrow> 'f stores \<Rightarrow> 'f stores" where
  "setJson env updated st = st\<lparr>json := Some updated, nodes := parser env updated\<rparr>"

text \<open>\<open>setContents({contents, hasChanges: false, skipUpdate: true})\<close> inside its own \<open>try\<close>.\<close>

definition update_editor :: "('e, 'f) env \<Rightarrow> string \<Rightarrow> 'f stores \<Rightarrow> 'f stores" where
  "update_editor env updated st =
     (case setContents env updated False True (fileStore st) of
        None \<Rightarrow> st
      | Some f \<Rightarrow> st\<lparr>fileStore := f\<rparr>)"

text \<open>The reconciliation: \<open>nodes.find(...)\<close>, then \<open>setSelectedNode\<close> when a node matched.\<close>

definition reselect :: "'f stores \<Rightarrow> node_data \<Rightarrow> 'f stores" where
  "reselect st nodeData =
     (let targetPath = path_or_empty nodeData
      in case find (\<lambda>n. JSON_stringify_path (path n) = JSON_stringify_path (Some targetPath))
                (nodes st) of
           None \<Rightarrow> st
         | Some matched \<Rightarrow> st\<lparr>selectedNode := Some matched\<rparr>)"

text \<open>
  The handler. With no selected node it returns at once. An exception of \<open>modify\<close> or
  \<open>applyEdits\<close> leaves the outer \<open>try\<close> before \<open>setJson\<close>: the \<open>catch\<close> only
  calls \<open>setEditing(false)\<close>. Otherwise the text is published, the editor contents are
  updated, the selection is reconciled and the editing mode is left.
\<close>

definition save_onClick :: "('e, 'f) env \<Rightarrow> 'f stores \<Rightarrow> 'f stores" where
  "save_onClick env st =
     (case selectedNode st of
        None \<Rightarrow> st
      | Some nodeData \<Rightarrow>
          (case edited_text env st nodeData of
             None \<Rightarrow> st\<lparr>editing := False\<rparr>
           | Some updated \<Rightarrow>
               (reselect (update_editor env updated (setJson env updated st)) nodeData)
                 \<lparr>editing := False\<rparr>))"

text \<open>The two read views of the modal, on the selection (\<open>None\<close> when there is none).\<close>

definition content_view :: "node_data option \<Rightarrow> string" where
  "content_view nodeData =
     normalizeNodeData (Some (case nodeData of None \<Rightarrow> [] | Some n \<Rightarrow> text_node n))"

definition path_view :: "node_data option \<Rightarrow> string" where
  "path_view nodeData = jsonPathToString (case nodeData of None \<Rightarrow> None | Some n \<Rightarrow> path n)"


section \<open>What the specification says, for comparison with the code\<close>

text \<open>
  Path equality as the data model words it: the same length, and each segment equal to
  its counterpart in kind and in value.
\<close>

fun segment_equal :: "segment \<Rightarrow> segment \<Rightarrow> bool" where
  "segment_equal (Key a) (Key b) = (a = b)"
| "segment_equal (Index m) (Index n) = (m = n)"
| "segment_equal (Key a) (Index n) = False"
| "segment_equal (Index m) (Key b) = False"

definition path_equal :: "segment list \<Rightarrow> segment list \<Rightarrow> bool" where
  "path_equal p q = (length p = length q \<and> list_all2 segment_equal p q)"

text \<open>
  The flat projection as the Row Normalizer's contract words it: the (key, value) pairs
  of the rows that are no containers and have a defined key, in input order.
\<close>

fun defined_key_pairs :: "row list \<Rightarrow> (string \<times> jsvalue) list" where
  "defined_key_pairs [] = []"
| "defined_key_pairs (r # rs) =
     (if type_row r \<noteq> TObject \<and> type_row r \<noteq> TArray
      then (case key r of
              None \<Rightarrow> defined_key_pairs rs
            | Some k \<Rightarrow> (k, value_row r) # defined_key_pairs rs)
      else defined_key_pairs rs)"

text \<open>The same projection with the empty key counted as no key.\<close>

fun nonempty_key_pairs :: "row list \<Rightarrow> (string \<times> jsvalue) list" where
  "nonempty_key_pairs [] = []"
| "nonempty_key_pairs (r # rs) =
     (if type_row r \<noteq> TObject \<and> type_row r \<noteq> TArray \<and> truthy (key r)
      then (case key r of
              None \<Rightarrow> nonempty_key_pairs rs
            | Some k \<Rightarrow> (k, value_row r) # nonempty_key_pairs rs)
      else nonempty_key_pairs rs)"

definition single_keyless :: "row list \<Rightarrow> bool" where
  "single_keyless rows = (length rows = 1 \<and> \<not> truthy (key (hd rows)))"

definition containers_only :: "row list \<Rightarrow> bool" where
  "containers_only rows = list_all (\<lambda>r. type_row r = TObject \<or> type_row r = TArray) rows"

text \<open>A row with the key \<open>""\<close> read as a row with no key.\<close>

definition blank_key_absent :: "row \<Rightarrow> row" where
  "blank_key_absent r = (if key r = Some [] then r\<lparr>key := None\<rparr> else r)"

text \<open>
  The commit as the Patch Applier's failure policy words it: a field whose edit fails is
  skipped, the next field is still applied, and what was applied is published.
\<close>

definition patch_or_skip :: "('e, 'f) env \<Rightarrow> string \<Rightarrow> segment list \<Rightarrow> string \<Rightarrow> string" where
  "patch_or_skip env updated p v =
     (case patch_field env updated p v of None \<Rightarrow> updated | Some updated1 \<Rightarrow> updated1)"

definition save_best_effort :: "('e, 'f) env \<Rightarrow> 'f stores \<Rightarrow> 'f stores" where
  "save_best_effort env st =
     (case selectedNode st of
        None \<Rightarrow> st
      | Some nodeData \<Rightarrow>
          (let basePath = path_or_empty nodeData;
               updated1 = patch_or_skip env (json_or_empty st) (basePath @ [Key ''name'']) (nameValue st);
               updated2 = patch_or_skip env updated1 (basePath @ [Key ''color'']) (colorValue st)
           in (reselect (update_editor env updated2 (setJson env updated2 st)) nodeData)
                \<lparr>editing := False\<rparr>))"

text \<open>One field's edit fails: \<open>modify\<close> or \<open>applyEdits\<close> throws.\<close>

definition field_edit_fails :: "('e, 'f) env \<Rightarrow> string \<Rightarrow> segment list \<Rightarrow> string \<Rightarrow> bool" where
  "field_edit_fails env updated p v = (patch_field env updated p v = None)"

text \<open>
  The contract of the Patch Applier on the members \<open>fs\<close>, for a reading of
  documents given by \<open>valid\<close> (the text parses), \<open>resolves\<close> (the path leads to a
  node that holds members) and \<open>member\<close> (the string re-read at a path): on a valid text and a base path
  that resolves, the edit succeeds, the result is valid, the base path still resolves,
  the member re-reads as the new value and every other member of the node as before.
\<close>

definition patch_contract ::
  "('e, 'f) env \<Rightarrow> (string \<Rightarrow> bool) \<Rightarrow> (string \<Rightarrow> segment list \<Rightarrow> bool) \<Rightarrow>
   (string \<Rightarrow> segment list \<Rightarrow> string option) \<Rightarrow> string list \<Rightarrow> bool" where
  "patch_contract env valid resolves member fs =
     (\<forall>t p f v. f \<in> set fs \<and> valid t \<and> resolves t p \<longrightarrow>
        (\<exists>t'. patch_field env t (p @ [Key f]) v = Some t' \<and> valid t' \<and> resolves t' p \<and>
              member t' (p @ [Key f]) = Some v \<and>
              (\<forall>g. g \<noteq> f \<longrightarrow> member t' (p @ [Key g]) = member t (p @ [Key g]))))"

text \<open>A segment as the Path Formatter's contract words it: in brackets, an index bare, a key in double quotes.\<close>

fun bracketed_segment :: "segment \<Rightarrow> string" where
  "bracketed_segment (Index n) = ''['' @ dec n @ '']''"
| "bracketed_segment (Key k) = ''['' @ [CHR 0x22] @ k @ [CHR 0x22] @ '']''"

text \<open>A node matches a target path: it has a path, equal to the target.\<close>

definition path_matches :: "node_data \<Rightarrow> segment list \<Rightarrow> bool" where
  "path_matches n targetPath =
     (case path n of None \<Rightarrow> False | Some p \<Rightarrow> path_equal p targetPath)"

text \<open>
  Keys on which a plain object behaves as a list of entries: pairwise distinct, none an
  array index, none \<open>__proto__\<close>.
\<close>

definition plain_keys :: "string list \<Rightarrow> bool" where
  "plain_keys ks =
     (distinct ks \<and> list_all (\<lambda>k. \<not> is_array_index k \<and> k \<noteq> ''__proto__'') ks)"

section \<open>A small document format for the examples\<close>

text \<open>
  A document of this format is one object with the two string members \<open>name\<close> and
  \<open>color\<close>: the length of the name in unary, a \<open>0\<close>, the name, the color. An edit
  is the text that replaces the document.
\<close>

definition flat_print :: "string \<times> string \<Rightarrow> string" where
  "flat_print d = replicate (length (fst d)) (CHR ''1'') @ CHR ''0'' # fst d @ snd d"

definition flat_parse :: "string \<Rightarrow> (string \<times> string) option" where
  "flat_parse t =
     (let n = length (takeWhile (\<lambda>c. c = CHR ''1'') t);
          rest = drop (Suc n) t
      in if n < length t \<and> t ! n = CHR ''0'' \<and> n \<le> length rest
         then Some (take n rest, drop n rest) else None)"

definition flat_valid :: "string \<Rightarrow> bool" where
  "flat_valid t = (flat_parse t \<noteq> None)"

definition flat_resolves :: "string \<Rightarrow> segment list \<Rightarrow> bool" where
  "flat_resolves t p = (flat_valid t \<and> p = [])"

definition flat_member :: "string \<Rightarrow> segment list \<Rightarrow> string option" where
  "flat_member t p =
     (case flat_parse t of
        None \<Rightarrow> None
      | Some d \<Rightarrow>
          if p = [Key ''name''] then Some (fst d)
          else if p = [Key ''color''] then Some (snd d)
          else None)"

definition flat_modify :: "string \<Rightarrow> segment list \<Rightarrow> string \<Rightarrow> string option" where
  "flat_modify t p v =
     (case flat_parse t of
        None \<Rightarrow> None
      | Some d \<Rightarrow>
          if p = [Key ''name''] then Some (flat_print (v, snd d))
          else if p = [Key ''color''] then Some (flat_print (fst d, v))
          else None)"

definition flat_nodes :: "string \<Rightarrow> node_data list" where
  "flat_nodes t =
     (case flat_parse t of
        None \<Rightarrow> []
      | Some d \<Rightarrow>
          [\<lparr>text_node =
              [\<lparr>key = Some ''name'', value_row = VString (fst d), type_row = TString\<rparr>,
               \<lparr>key = Some ''color'', value_row = VString (snd d), type_row = TString\<rparr>],
            path = Some []\<rparr>])"

definition flat_env :: "(string, string \<times> bool) env" where
  "flat_env =
     \<lparr>modify = flat_modify,
      applyEdits = (\<lambda>t edits. Some edits),
      parser = flat_nodes,
      setContents = (\<lambda>contents hasChanges skipUpdate f. Some (contents, hasChanges))\<rparr>"

text \<open>The same, with a \<open>modify\<close> that throws on the member \<open>color\<close>.\<close>

definition no_color_env :: "(string, string \<times> bool) env" where
  "no_color_env =
     flat_env\<lparr>modify := (\<lambda>t p v. if p = [Key ''color''] then None else flat_modify t p v)\<rparr>"

text \<open>The same, with a graph parser that finds no node.\<close>

definition no_nodes_env :: "(string, string \<times> bool) env" where
  "no_nodes_env = flat_env\<lparr>parser := (\<lambda>t. [])\<rparr>"

definition example_node :: node_data where
  "example_node =
     \<lparr>text_node =
        [\<lparr>key = Some ''name'', value_row = VString ''a'', type_row = TString\<rparr>,
         \<lparr>key = Some ''color'', value_row = VString ''red'', type_row = TString\<rparr>],
      path = Some []\<rparr>"

definition example_stores :: "(string \<times> bool) stores" where
  "example_stores =
     \<lparr>json = Some (flat_print (''a'', ''red'')),
      fileStore = (flat_print (''a'', ''red''), False),
      nodes = [example_node],
      selectedNode = Some example_node,
      editing = True,
      nameValue = ''b'',
      colorValue = ''blue''\<rparr>"


section \<open>Row lists for the examples\<close>

definition rows_blank_key :: "row list" where
  "rows_blank_key =
     [\<lparr>key = Some [], value_row = VNumber 1, type_row = TNumber\<rparr>,
      \<lparr>key = Some ''a'', value_row = VNumber 2, type_row = TNumber\<rparr>]"

definition rows_duplicate_key :: "row list" where
  "rows_duplicate_key =
     [\<lparr>key = Some ''a'', value_row = VNumber 1, type_row = TNumber\<rparr>,
      \<lparr>key = Some ''a'', value_row = VNumber 2, type_row = TNumber\<rparr>]"

definition rows_index_key :: "row list" where
  "rows_index_key =
     [\<lparr>key = Some ''b'', value_row = VNumber 1, type_row = TNumber\<rparr>,
      \<lparr>key = Some ''1'', value_row = VNumber 2, type_row = TNumber\<rparr>]"

definition rows_proto_key :: "row list" where
  "rows_proto_key =
     [\<lparr>key = Some ''__proto__'', value_row = VNumber 1, type_row = TNumber\<rparr>,
      \<lparr>key = Some ''a'', value_row = VNumber 2, type_row = TNumber\<rparr>]"

definition rows_person :: "row list" where
  "rows_person =
     [\<lparr>key = Some ''name'', value_row = VString ''x'', type_row = TString\<rparr>,
      \<lparr>key = Some [], value_row = VNumber 1, type_row = TNumber\<rparr>,
      \<lparr>key = Some ''items'', value_row = VString ''[2 items]'', type_row = TArray\<rparr>,
      \<lparr>key = Some ''age'', value_row = VNumber 30, type_row = TNumber\<rparr>]"

section \<open>A subset of JSON for the examples\<close>

text \<open>
  Documents of strings without escapes, non-empty arrays and non-empty objects, as a
  second stand-in for the package: here a document has nodes that hold no members.
\<close>

datatype jtree = JString string | JArray "jtree list" | JObject "(string \<times> jtree) list"

text \<open>Blanks may stand between the tokens.\<close>

definition skip_blanks :: "string \<Rightarrow> string" where
  "skip_blanks t = dropWhile (\<lambda>c. c = CHR '' '') t"

text \<open>A string after its opening quote: up to the closing quote, with no escapes.\<close>

fun string_body :: "string \<Rightarrow> (string \<times> string) option" where
  "string_body [] = None"
| "string_body (c # cs) =
     (if c = CHR 0x22 then Some ([], cs)
      else if c = CHR 0x5C then None
      else (case string_body cs of None \<Rightarrow> None | Some (s, r) \<Rightarrow> Some (c # s, r)))"

text \<open>
  The parser, by recursive descent. Its first argument bounds the recursion; a text is
  parsed with itself, twice, as the bound.
\<close>

fun parse_value :: "string \<Rightarrow> string \<Rightarrow> (jtree \<times> string) option"
  and parse_elements :: "string \<Rightarrow> string \<Rightarrow> (jtree list \<times> string) option"
  and parse_members :: "string \<Rightarrow> string \<Rightarrow> ((string \<times> jtree) list \<times> string) option"
where
  "parse_value [] t = None"
| "parse_value (f # fuel) t =
     (case skip_blanks t of
        [] \<Rightarrow> None
      | c # cs \<Rightarrow>
          if c = CHR 0x22 then
            (case string_body cs of None \<Rightarrow> None | Some (s, r) \<Rightarrow> Some (JString s, r))
          else if c = CHR ''['' then
            (case parse_elements fuel cs of None \<Rightarrow> None | Some (es, r) \<Rightarrow> Some (JArray es, r))
          else if c = CHR ''{'' then
            (case parse_members fuel cs of None \<Rightarrow> None | Some (ms, r) \<Rightarrow> Some (JObject ms, r))
          else None)"
| "parse_elements [] t = None"
| "parse_elements (f # fuel) t =
     (case parse_value fuel t of
        None \<Rightarrow> None
      | Some (v, r) \<Rightarrow>
          (case skip_blanks r of
             [] \<Rightarrow> None
           | c # cs \<Rightarrow>
               if c = CHR '','' then
                 (case parse_elements fuel cs of None \<Rightarrow> None | Some (vs, r') \<Rightarrow> Some (v # vs, r'))
               else if c = CHR '']'' then Some ([v], cs)
               else None))"
| "parse_members [] t = None"
| "parse_members (f # fuel) t =
     (case skip_blanks t of
        [] \<Rightarrow> None
      | q # cs \<Rightarrow>
          if q = CHR 0x22 then
            (case string_body cs of
               None \<Rightarrow> None
             | Some (k, r) \<Rightarrow>
                 (case skip_blanks r of
                    [] \<Rightarrow> None
                  | c # r1 \<Rightarrow>
                      if c = CHR '':'' then
                        (case parse_value fuel r1 of
                           None \<Rightarrow> None
                         | Some (v, r2) \<Rightarrow>
                             (case skip_blanks r2 of
                                [] \<Rightarrow> None
                              | d # r3 \<Rightarrow>
                                  if d = CHR '','' then
                                    (case parse_members fuel r3 of
                                       None \<Rightarrow> None
                                     | Some (ms, r4) \<Rightarrow> Some ((k, v) # ms, r4))
                                  else if d = CHR ''}'' then Some ([(k, v)], r3)
                                  else None))
                      else None))
          else None)"

definition parse_document :: "string \<Rightarrow> jtree option" where
  "parse_document t =
     (case parse_value (t @ t) t of
        None \<Rightarrow> None
      | Some (v, r) \<Rightarrow> if skip_blanks r = [] then Some v else None)"

text \<open>The node of a tree at a path, if the path resolves.\<close>

fun node_at :: "jtree \<Rightarrow> segment list \<Rightarrow> jtree option" where
  "node_at v [] = Some v"
| "node_at (JObject ms) (Key k # p) =
     (case map_of ms k of None \<Rightarrow> None | Some c \<Rightarrow> node_at c p)"
| "node_at (JArray es) (Index i # p) = (if i < length es then node_at (es ! i) p else None)"
| "node_at v (s # p) = None"

text \<open>
  Setting the member at a path: the node before the last segment has to be an object,
  where the member is replaced or added; at a string or an array the edit fails.
\<close>

fun put_member :: "string \<Rightarrow> jtree \<Rightarrow> (string \<times> jtree) list \<Rightarrow> (string \<times> jtree) list" where
  "put_member k v [] = [(k, v)]"
| "put_member k v (m # ms) = (if fst m = k then (k, v) # ms else m # put_member k v ms)"

fun set_at :: "jtree \<Rightarrow> segment list \<Rightarrow> jtree \<Rightarrow> jtree option" where
  "set_at (JObject ms) [Key k] new = Some (JObject (put_member k new ms))"
| "set_at (JObject ms) (Key k # s # p) new =
     (case map_of ms k of
        None \<Rightarrow> None
      | Some c \<Rightarrow>
          (case set_at c (s # p) new of
             None \<Rightarrow> None
           | Some c' \<Rightarrow> Some (JObject (put_member k c' ms))))"
| "set_at (JArray es) (Index i # s # p) new =
     (if i < length es
      then (case set_at (es ! i) (s # p) new of
              None \<Rightarrow> None
            | Some c' \<Rightarrow> Some (JArray (es[i := c'])))
      else None)"
| "set_at v p new = None"

fun print_tree :: "jtree \<Rightarrow> string" where
  "print_tree (JString s) = CHR 0x22 # s @ [CHR 0x22]"
| "print_tree (JArray es) = ''['' @ join '','' (map print_tree es) @ '']''"
| "print_tree (JObject ms) =
     ''{'' @ join '','' (map (\<lambda>(k, v). CHR 0x22 # k @ [CHR 0x22] @ '':'' @ print_tree v) ms) @ ''}''"

text \<open>
  A \<open>modify\<close> on this subset. The edit is the text that replaces the document;
  \<open>None\<close> is the exception thrown when the text does not parse, the base path does
  not resolve, or the node at the base path is no object.
\<close>

definition tree_modify :: "string \<Rightarrow> segment list \<Rightarrow> string \<Rightarrow> string option" where
  "tree_modify t p v =
     (case parse_document t of
        None \<Rightarrow> None
      | Some tree \<Rightarrow>
          (case set_at tree p (JString v) of
             None \<Rightarrow> None
           | Some tree' \<Rightarrow> Some (print_tree tree')))"

text \<open>The reading of documents that goes with it.\<close>

definition tree_valid :: "string \<Rightarrow> bool" where
  "tree_valid t = (parse_document t \<noteq> None)"

definition tree_resolves :: "string \<Rightarrow> segment list \<Rightarrow> bool" where
  "tree_resolves t p =
     (case parse_document t of None \<Rightarrow> False | Some tree \<Rightarrow> node_at tree p \<noteq> None)"

definition tree_member :: "string \<Rightarrow> segment list \<Rightarrow> string option" where
  "tree_member t p =
     (case parse_document t of
        None \<Rightarrow> None
      | Some tree \<Rightarrow>
          (case node_at tree p of
             Some (JString s) \<Rightarrow> Some s
           | _ \<Rightarrow> None))"

definition tree_env :: "(string, string \<times> bool) env" where
  "tree_env = flat_env\<lparr>modify := tree_modify\<rparr>"

text \<open>
  The document \<open>{"fruits": ["apple"]}\<close> with the node of the string \<open>apple\<close>
  selected, and the document \<open>{"a": {"name": "x"}}\<close>.
\<close>

definition fruits_text :: string where
  "fruits_text =
     ''{'' @ [CHR 0x22] @ ''fruits'' @ [CHR 0x22] @ '': ['' @ [CHR 0x22] @ ''apple''
       @ [CHR 0x22] @ '']}''"

definition apple_node :: node_data where
  "apple_node =
     \<lparr>text_node = [\<lparr>key = None, value_row = VString ''apple'', type_row = TString\<rparr>],
      path = Some [Key ''fruits'', Index 0]\<rparr>"

definition fruits_stores :: "(string \<times> bool) stores" where
  "fruits_stores =
     \<lparr>json = Some fruits_text,
      fileStore = (fruits_text, False),
      nodes = [apple_node],
      selectedNode = Some apple_node,
      editing = True,
      nameValue = ''b'',
      colorValue = ''blue''\<rparr>"

definition nested_text :: string where
  "nested_text =
     ''{'' @ [CHR 0x22] @ ''a'' @ [CHR 0x22] @ '': {'' @ [CHR 0x22] @ ''name'' @ [CHR 0x22]
       @ '': '' @ [CHR 0x22] @ ''x'' @ [CHR 0x22] @ ''}}''"

section \<open>Decimal numerals\<close>

lemma digit_char_inj: "a < 16 \<Longrightarrow> b < 16 \<Longrightarrow> digit_char a = digit_char b \<Longrightarrow> a = b"
proof -
  assume a: "a < 16" and b: "b < 16" and e: "digit_char a = digit_char b"
  have d: "distinct ''0123456789abcdef''" by simp
  have l: "length ''0123456789abcdef'' = 16" by simp
  from e have "''0123456789abcdef'' ! a = ''0123456789abcdef'' ! b" by (simp add: digit_char_def)
  with d l a b show "a = b" by (metis nth_eq_iff_index_eq)
qed

lemma digit_char_decimal: "d < 10 \<Longrightarrow> digit_char d \<in> set ''0123456789''"
proof -
  assume "d < 10"
  then have "d \<in> {0,1,2,3,4,5,6,7,8,9}" by auto
  then show ?thesis by (auto simp: digit_char_def)
qed

lemma digit_value_digit_char: "d < 10 \<Longrightarrow> digit_value (digit_char d) = d"
proof -
  assume "d < 10"
  then have "d \<in> {0,1,2,3,4,5,6,7,8,9}" by auto
  then show ?thesis by (auto simp: digit_char_def digit_value_def)
qed

lemma dec_digits: "set (dec n) \<subseteq> set ''0123456789''"
proof (induction n rule: dec.induct)
  case (1 n)
  show ?case
  proof (cases "n < 10")
    case True
    then show ?thesis using digit_char_decimal[of n] by (subst dec.simps) simp
  next
    case False
    have "n mod 10 < 10" by simp
    then have "digit_char (n mod 10) \<in> set ''0123456789''" by (rule digit_char_decimal)
    with False 1 show ?thesis by (subst dec.simps) simp
  qed
qed

lemma dec_not_Nil: "dec n \<noteq> []"
  by (subst dec.simps) simp

lemma string_to_nat_snoc: "string_to_nat (s @ [c]) = 10 * string_to_nat s + digit_value c"
  by (simp add: string_to_nat_def)

lemma string_to_nat_dec: "string_to_nat (dec n) = n"
proof (induction n rule: dec.induct)
  case (1 n)
  show ?case
  proof (cases "n < 10")
    case True
    then show ?thesis
      by (subst dec.simps) (simp add: string_to_nat_def digit_value_digit_char)
  next
    case False
    with 1 have "string_to_nat (dec (n div 10)) = n div 10" by simp
    with False show ?thesis
      by (subst dec.simps) (simp add: string_to_nat_snoc digit_value_digit_char)
  qed
qed

lemma dec_inj: "dec m = dec n \<Longrightarrow> m = n"
  by (metis string_to_nat_dec)

lemma is_array_index_iff: "is_array_index k \<longleftrightarrow> (\<exists>n < 4294967295. k = dec n)"
  by (auto simp: is_array_index_def string_to_nat_dec)

lemma takeWhile_digits:
  assumes "set xs \<subseteq> D" and "r = [] \<or> hd r \<notin> D"
  shows "takeWhile (\<lambda>c. c \<in> D) (xs @ r) = xs"
proof -
  have "takeWhile (\<lambda>c. c \<in> D) (xs @ r) = xs @ takeWhile (\<lambda>c. c \<in> D) r"
    using assms(1) by (intro takeWhile_append2) auto
  moreover have "takeWhile (\<lambda>c. c \<in> D) r = []"
    using assms(2) by (cases r) auto
  ultimately show ?thesis by simp
qed

lemma dec_prefix:
  assumes "dec m @ r1 = dec n @ r2"
    and "r1 = [] \<or> hd r1 \<notin> set ''0123456789''"
    and "r2 = [] \<or> hd r2 \<notin> set ''0123456789''"
  shows "m = n \<and> r1 = r2"
proof -
  have "dec m = takeWhile (\<lambda>c. c \<in> set ''0123456789'') (dec m @ r1)"
    using takeWhile_digits[OF dec_digits assms(2)] by simp
  also have "\<dots> = dec n"
    unfolding assms(1) using takeWhile_digits[OF dec_digits assms(3)] by simp
  finally have "dec m = dec n" .
  with assms(1) show ?thesis by (simp add: dec_inj)
qed

section \<open>\<open>JSON.stringify\<close> of a path is injective\<close>

lemma of_char_nat_inj: "(of_char c :: nat) = of_char d \<Longrightarrow> c = d"
  by (metis char_of_char)

lemma UnicodeEscape_inj:
  assumes "(of_char c :: nat) < 32" "(of_char d :: nat) < 32"
    and "UnicodeEscape c @ X = UnicodeEscape d @ Y"
  shows "c = d \<and> X = Y"
proof -
  let ?m = "of_char c :: nat" and ?n = "of_char d :: nat"
  from assms(3) have h: "digit_char (?m div 16) = digit_char (?n div 16)"
    and l: "digit_char (?m mod 16) = digit_char (?n mod 16)" and xy: "X = Y"
    by (simp_all add: UnicodeEscape_def)
  from assms(1,2) have a: "?m div 16 < 16" and b: "?n div 16 < 16" by auto
  have 1: "?m div 16 = ?n div 16" by (rule digit_char_inj[OF a b h])
  have a': "?m mod 16 < 16" and b': "?n mod 16 < 16" by auto
  have 2: "?m mod 16 = ?n mod 16" by (rule digit_char_inj[OF a' b' l])
  have "?m = 16 * (?m div 16) + ?m mod 16" by simp
  also have "\<dots> = 16 * (?n div 16) + ?n mod 16" by (simp only: 1 2)
  also have "\<dots> = ?n" by simp
  finally have "?m = ?n" .
  with xy show ?thesis by (simp add: of_char_nat_inj)
qed

lemma escape_hd: "\<exists>x xs. json_escape_char c = x # xs \<and> x \<noteq> CHR 0x22"
  by (simp add: json_escape_char_def UnicodeEscape_def)

lemma escape_shape:
  "(json_escape_char c = [c] \<and> c \<noteq> CHR 0x5C) \<or>
   (\<exists>y. json_escape_char c = [CHR 0x5C, y] \<and>
        (c, y) \<in> set [(CHR 0x08, CHR ''b''), (CHR 0x09, CHR ''t''), (CHR 0x0A, CHR ''n''),
                      (CHR 0x0C, CHR ''f''), (CHR 0x0D, CHR ''r''), (CHR 0x22, CHR 0x22),
                      (CHR 0x5C, CHR 0x5C)]) \<or>
   (json_escape_char c = UnicodeEscape c \<and> (of_char c :: nat) < 32)"
  by (simp add: json_escape_char_def)

lemma short_escape_inj:
  assumes "(c, y) \<in> set [(CHR 0x08, CHR ''b''), (CHR 0x09, CHR ''t''), (CHR 0x0A, CHR ''n''),
                      (CHR 0x0C, CHR ''f''), (CHR 0x0D, CHR ''r''), (CHR 0x22, CHR 0x22),
                      (CHR 0x5C, CHR 0x5C)]"
    and "(d, y) \<in> set [(CHR 0x08, CHR ''b''), (CHR 0x09, CHR ''t''), (CHR 0x0A, CHR ''n''),
                      (CHR 0x0C, CHR ''f''), (CHR 0x0D, CHR ''r''), (CHR 0x22, CHR 0x22),
                      (CHR 0x5C, CHR 0x5C)]"
  shows "c = d \<and> y \<noteq> CHR ''u''"
  using assms by auto

lemma escape_prefix:
  assumes e: "json_escape_char c @ X = json_escape_char d @ Y"
  shows "c = d \<and> X = Y"
proof -
  let ?T = "set [(CHR 0x08, CHR ''b''), (CHR 0x09, CHR ''t''), (CHR 0x0A, CHR ''n''),
                 (CHR 0x0C, CHR ''f''), (CHR 0x0D, CHR ''r''), (CHR 0x22, CHR 0x22),
                 (CHR 0x5C, CHR 0x5C)]"
  consider (plain) "json_escape_char c = [c]" "c \<noteq> CHR 0x5C"
    | (short) y where "json_escape_char c = [CHR 0x5C, y]" "(c, y) \<in> ?T"
    | (long) "json_escape_char c = UnicodeEscape c" "(of_char c :: nat) < 32"
    using escape_shape[of c] by blast
  then show ?thesis
  proof cases
    case plain
    consider (plain') "json_escape_char d = [d]" "d \<noteq> CHR 0x5C"
      | (short') z where "json_escape_char d = [CHR 0x5C, z]" "(d, z) \<in> ?T"
      | (long') "json_escape_char d = UnicodeEscape d" "(of_char d :: nat) < 32"
      using escape_shape[of d] by blast
    then show ?thesis
    proof cases
      case plain'
      with plain e show ?thesis by simp
    next
      case short'
      with plain e show ?thesis by simp
    next
      case long'
      with plain e show ?thesis by (simp add: UnicodeEscape_def)
    qed
  next
    case short
    consider (plain') "json_escape_char d = [d]" "d \<noteq> CHR 0x5C"
      | (short') z where "json_escape_char d = [CHR 0x5C, z]" "(d, z) \<in> ?T"
      | (long') "json_escape_char d = UnicodeEscape d" "(of_char d :: nat) < 32"
      using escape_shape[of d] by blast
    then show ?thesis
    proof cases
      case plain'
      with short e show ?thesis by simp
    next
      case short'
      with short(1) e have "y = z" and "X = Y" by simp_all
      with short(2) short'(2) show ?thesis using short_escape_inj[of c y d] by simp
    next
      case long'
      with short(1) e have "y = CHR ''u''" by (simp add: UnicodeEscape_def)
      with short(2) show ?thesis using short_escape_inj[of c y c] by simp
    qed
  next
    case long
    consider (plain') "json_escape_char d = [d]" "d \<noteq> CHR 0x5C"
      | (short') z where "json_escape_char d = [CHR 0x5C, z]" "(d, z) \<in> ?T"
      | (long') "json_escape_char d = UnicodeEscape d" "(of_char d :: nat) < 32"
      using escape_shape[of d] by blast
    then show ?thesis
    proof cases
      case plain'
      with long e show ?thesis by (simp add: UnicodeEscape_def)
    next
      case short'
      with long(1) e have "z = CHR ''u''" by (simp add: UnicodeEscape_def)
      with short'(2) show ?thesis using short_escape_inj[of d z d] by simp
    next
      case long'
      with long e show ?thesis using UnicodeEscape_inj[of c d X Y] by simp
    qed
  qed
qed

lemma escaped_prefix:
  "concat (map json_escape_char s) @ CHR 0x22 # r1 = concat (map json_escape_char s') @ CHR 0x22 # r2
   \<Longrightarrow> s = s' \<and> r1 = r2"
proof (induction s arbitrary: s')
  case Nil
  show ?case
  proof (cases s')
    case Nil
    with Nil.prems show ?thesis by simp
  next
    case (Cons d ds)
    obtain x xs where "json_escape_char d = x # xs" "x \<noteq> CHR 0x22"
      using escape_hd by blast
    with Nil.prems Cons show ?thesis by simp
  qed
next
  case (Cons c cs)
  show ?case
  proof (cases s')
    case Nil
    obtain x xs where "json_escape_char c = x # xs" "x \<noteq> CHR 0x22"
      using escape_hd by blast
    with Cons.prems Nil show ?thesis by simp
  next
    case (Cons d ds)
    with Cons.prems have
      "json_escape_char c @ (concat (map json_escape_char cs) @ CHR 0x22 # r1)
       = json_escape_char d @ (concat (map json_escape_char ds) @ CHR 0x22 # r2)"
      by simp
    then have "c = d" and
      "concat (map json_escape_char cs) @ CHR 0x22 # r1 = concat (map json_escape_char ds) @ CHR 0x22 # r2"
      using escape_prefix by blast+
    with Cons.IH[of ds] Cons show ?thesis by simp
  qed
qed

lemma QuoteJSONString_prefix:
  "QuoteJSONString a @ r1 = QuoteJSONString b @ r2 \<Longrightarrow> a = b \<and> r1 = r2"
  using escaped_prefix[of a r1 b r2] by (simp add: QuoteJSONString_def)

lemma QuoteJSONString_hd: "\<exists>xs. QuoteJSONString a = CHR 0x22 # xs"
  by (simp add: QuoteJSONString_def)

lemma dec_hd: "\<exists>x xs. dec n = x # xs \<and> x \<in> set ''0123456789''"
  using dec_digits[of n] dec_not_Nil[of n] by (cases "dec n") auto

lemma segment_json_prefix:
  assumes "segment_json s @ r1 = segment_json t @ r2"
    and "\<exists>xs. r1 = CHR '','' # xs \<or> r1 = CHR '']'' # xs"
    and "\<exists>xs. r2 = CHR '','' # xs \<or> r2 = CHR '']'' # xs"
  shows "s = t \<and> r1 = r2"
proof (cases s)
  case (Key a)
  show ?thesis
  proof (cases t)
    case (Key b)
    with \<open>s = Key a\<close> assms(1) show ?thesis using QuoteJSONString_prefix[of a r1 b r2] by simp
  next
    case (Index n)
    obtain x xs where "dec n = x # xs" "x \<in> set ''0123456789''" using dec_hd by blast
    moreover obtain ys where "QuoteJSONString a = CHR 0x22 # ys" using QuoteJSONString_hd by blast
    ultimately show ?thesis using assms(1) Index \<open>s = Key a\<close> by auto
  qed
next
  case (Index m)
  show ?thesis
  proof (cases t)
    case (Key b)
    obtain x xs where "dec m = x # xs" "x \<in> set ''0123456789''" using dec_hd by blast
    moreover obtain ys where "QuoteJSONString b = CHR 0x22 # ys" using QuoteJSONString_hd by blast
    ultimately show ?thesis using assms(1) Key \<open>s = Index m\<close> by auto
  next
    case (Index n)
    from assms(2) have 1: "r1 = [] \<or> hd r1 \<notin> set ''0123456789''" by auto
    from assms(3) have 2: "r2 = [] \<or> hd r2 \<notin> set ''0123456789''" by auto
    from assms(1) Index \<open>s = Index m\<close> have "dec m @ r1 = dec n @ r2" by simp
    from dec_prefix[OF this 1 2] Index \<open>s = Index m\<close> show ?thesis by simp
  qed
qed

lemma segment_json_hd: "\<exists>x xs. segment_json s = x # xs \<and> x \<noteq> CHR '']''"
proof (cases s)
  case (Key a)
  then show ?thesis using QuoteJSONString_hd[of a] by auto
next
  case (Index n)
  then show ?thesis using dec_hd[of n] by auto
qed

lemma join_Cons: "join sep (x # xs) = x @ (if xs = [] then [] else sep @ join sep xs)"
  by (cases xs) simp_all

lemma stringify_elements_inj:
  "join '','' (map segment_json p) @ '']'' = join '','' (map segment_json q) @ '']'' \<Longrightarrow> p = q"
proof (induction p arbitrary: q)
  case Nil
  show ?case
  proof (cases q)
    case Nil
    then show ?thesis by simp
  next
    case (Cons t qs)
    obtain x xs where "segment_json t = x # xs" "x \<noteq> CHR '']''" using segment_json_hd by blast
    with Nil.prems Cons show ?thesis by (simp add: join_Cons)
  qed
next
  case (Cons s ps)
  show ?case
  proof (cases q)
    case Nil
    obtain x xs where "segment_json s = x # xs" "x \<noteq> CHR '']''" using segment_json_hd by blast
    with Cons.prems Nil show ?thesis by (simp add: join_Cons)
  next
    case (Cons t qs)
    let ?r = "\<lambda>xs. if xs = [] then '']'' else '','' @ join '','' (map segment_json xs) @ '']''"
    have a: "join '','' (map segment_json (s # ps)) @ '']'' = segment_json s @ ?r ps"
      by (simp add: join_Cons)
    have b: "join '','' (map segment_json (t # qs)) @ '']'' = segment_json t @ ?r qs"
      by (simp add: join_Cons)
    from Cons.prems have e: "segment_json s @ ?r ps = segment_json t @ ?r qs"
      unfolding Cons a b .
    have "\<exists>xs. ?r ps = CHR '','' # xs \<or> ?r ps = CHR '']'' # xs" by simp
    moreover have "\<exists>xs. ?r qs = CHR '','' # xs \<or> ?r qs = CHR '']'' # xs" by simp
    ultimately have st: "s = t" and r: "?r ps = ?r qs"
      using segment_json_prefix[OF e] by blast+
    have "ps = qs"
    proof (cases "ps = []")
      case True
      with r show ?thesis by (cases "qs = []") simp_all
    next
      case False
      with r have "qs \<noteq> []" by (cases "qs = []") simp_all
      with r False have "join '','' (map segment_json ps) @ '']'' = join '','' (map segment_json qs) @ '']''"
        by simp
      then show ?thesis by (rule Cons.IH)
    qed
    with st Cons show ?thesis by simp
  qed
qed

lemma JSON_stringify_path_inj:
  "JSON_stringify_path (Some p) = JSON_stringify_path (Some q) \<longleftrightarrow> p = q"
  using stringify_elements_inj[of p q] by (auto simp: JSON_stringify_path_def)

lemma segment_equal_iff: "segment_equal s t \<longleftrightarrow> s = t"
  by (cases s; cases t) simp_all

lemma path_equal_iff: "path_equal p q \<longleftrightarrow> p = q"
proof -
  have "list_all2 segment_equal p q \<longleftrightarrow> p = q"
    by (simp add: segment_equal_iff[abs_def] list.rel_eq)
  then show ?thesis by (auto simp: path_equal_def)
qed

section \<open>The Path Formatter\<close>

lemma join_brackets:
  "xs \<noteq> [] \<Longrightarrow> a @ join (b @ a) xs @ b = concat (map (\<lambda>x. a @ x @ b) xs)"
  by (induction xs rule: induct_list012) simp_all

lemma bracketed_segment_text: "bracketed_segment s = ''['' @ segment_text s @ '']''"
  by (cases s) simp_all

text \<open>
  C8. The path formatter returns \<open>$\<close> for an undefined and for an empty path (also as
  the modal calls it with no selection); for every path it returns \<open>$\<close> followed by
  the bracketed segments of the path, one for each segment and in order, an index bare
  and a key in double quotes.
\<close>

theorem jsonPathToString_brackets:
  "jsonPathToString None = ''$'' \<and>
   jsonPathToString (Some []) = ''$'' \<and>
   path_view None = ''$'' \<and>
   jsonPathToString (Some p) = ''$'' @ concat (map bracketed_segment p) \<and>
   length (map bracketed_segment p) = length p"
proof -
  have "bracketed_segment = (\<lambda>s. ''['' @ segment_text s @ '']'')"
    by (rule ext) (rule bracketed_segment_text)
  then have "p \<noteq> [] \<Longrightarrow> ''['' @ join '']['' (map segment_text p) @ '']''
      = concat (map bracketed_segment p)"
    using join_brackets[of "map segment_text p" "''[''" "'']''"]
    by (simp add: comp_def)
  then show ?thesis
    by (cases p) (simp_all add: jsonPathToString_def path_view_def)
qed

section \<open>The Row Normalizer\<close>

text \<open>
  C9. For the empty row list, for an undefined row list and for the absent selection
  \<open>normalizeNodeData\<close> returns the literal \<open>{}\<close>.
\<close>

theorem normalize_empty:
  "normalizeNodeData (Some []) = ''{}'' \<and>
   normalizeNodeData None = ''{}'' \<and>
   content_view None = ''{}''"
  by (simp add: normalizeNodeData_def content_view_def)

text \<open>
  C6. For a single row with an undefined key and value \<open>v\<close>, \<open>normalizeNodeData\<close>
  returns \<open>String(v)\<close> with nothing added; the row with value 42 of type number gives
  \<open>42\<close>.
\<close>

theorem normalize_single_keyless_row:
  "normalizeNodeData (Some [\<lparr>key = None, value_row = v, type_row = t\<rparr>]) = ToString v \<and>
   normalizeNodeData (Some [\<lparr>key = None, value_row = VNumber 42, type_row = TNumber\<rparr>]) = ''42''"
  by (simp add: normalizeNodeData_def truthy_def Number_toString_def dec.simps digit_char_def)

lemma forEach_row_blank: "forEach_row ob (blank_key_absent r) = forEach_row ob r"
  by (simp add: forEach_row_def blank_key_absent_def)

lemma foldl_forEach_blank:
  "foldl forEach_row ob (map blank_key_absent rows) = foldl forEach_row ob rows"
  by (induction rows arbitrary: ob) (simp_all add: forEach_row_blank)

lemma truthy_blank: "truthy (key (blank_key_absent r)) = truthy (key r)"
  by (simp add: blank_key_absent_def truthy_def)

lemma value_blank: "value_row (blank_key_absent r) = value_row r"
  by (simp add: blank_key_absent_def)

text \<open>
  C10. The empty key counts as no key: a single row with the key \<open>""\<close> is rendered as
  the bare \<open>String\<close> of its value, a row with the key \<open>""\<close> adds nothing to the
  object, and replacing every key \<open>""\<close> of a row list by an absent key does not
  change the result.
\<close>

theorem normalize_blank_key_as_absent:
  "normalizeNodeData (Some [r\<lparr>key := Some []\<rparr>]) = ToString (value_row r) \<and>
   forEach_row ob (r\<lparr>key := Some []\<rparr>) = ob \<and>
   normalizeNodeData (Some (map blank_key_absent rows)) = normalizeNodeData (Some rows)"
proof -
  have a: "normalizeNodeData (Some [r\<lparr>key := Some []\<rparr>]) = ToString (value_row r)"
    by (simp add: normalizeNodeData_def truthy_def)
  have b: "forEach_row ob (r\<lparr>key := Some []\<rparr>) = ob"
    by (simp add: forEach_row_def)
  have c: "normalizeNodeData (Some (map blank_key_absent rows)) = normalizeNodeData (Some rows)"
    by (cases rows)
       (simp_all add: normalizeNodeData_def foldl_forEach_blank forEach_row_blank
          truthy_blank value_blank)
  from a b c show ?thesis by simp
qed

lemma forEach_row_container:
  "type_row r = TObject \<or> type_row r = TArray \<Longrightarrow> forEach_row ob r = ob"
  by (auto simp: forEach_row_def)

lemma foldl_containers:
  "containers_only rows \<Longrightarrow> foldl forEach_row ob rows = ob"
  by (induction rows arbitrary: ob) (simp_all add: containers_only_def forEach_row_container)

lemma stringify_empty_object: "JSON_stringify_object empty_object = ''{}''"
  by (simp add: JSON_stringify_object_def own_entries_def empty_object_def SerializeJSONObject_def)

text \<open>
  C7, as the code has it. For every row list in which every row has type object or
  array, and which is not a single row with an absent or empty key,
  \<open>normalizeNodeData\<close> returns the literal \<open>{}\<close>.
\<close>

theorem normalize_containers_only:
  assumes "containers_only rows" and "\<not> single_keyless rows"
  shows "normalizeNodeData (Some rows) = ''{}''"
  using assms
  by (auto simp: normalizeNodeData_def single_keyless_def foldl_containers stringify_empty_object)

theorem normalize_containers_only_witness:
  "containers_only
     [\<lparr>key = Some ''items'', value_row = VString ''[3 items]'', type_row = TArray\<rparr>,
      \<lparr>key = None, value_row = VNull, type_row = TObject\<rparr>] \<and>
   \<not> single_keyless
     [\<lparr>key = Some ''items'', value_row = VString ''[3 items]'', type_row = TArray\<rparr>,
      \<lparr>key = None, value_row = VNull, type_row = TObject\<rparr>] \<and>
   normalizeNodeData (Some
     [\<lparr>key = Some ''items'', value_row = VString ''[3 items]'', type_row = TArray\<rparr>,
      \<lparr>key = None, value_row = VNull, type_row = TObject\<rparr>]) = ''{}''"
  using normalize_containers_only
    [of "[\<lparr>key = Some ''items'', value_row = VString ''[3 items]'', type_row = TArray\<rparr>,
          \<lparr>key = None, value_row = VNull, type_row = TObject\<rparr>]"]
  by (simp add: containers_only_def single_keyless_def)

text \<open>
  C7 as stated fails: a single row of type object with no key is a row list of
  containers only, and it is rendered as the \<open>String\<close> of its value.
\<close>

theorem normalize_single_keyless_container:
  "containers_only [\<lparr>key = None, value_row = VString ''x'', type_row = TObject\<rparr>] \<and>
   normalizeNodeData (Some [\<lparr>key = None, value_row = VString ''x'', type_row = TObject\<rparr>]) = ''x'' \<and>
   normalizeNodeData (Some [\<lparr>key = None, value_row = VString ''x'', type_row = TObject\<rparr>]) \<noteq> ''{}''"
  by (simp add: containers_only_def normalizeNodeData_def truthy_def)

lemma put_prop_fresh: "k \<notin> set (map fst ps) \<Longrightarrow> put_prop k v ps = ps @ [(k, v)]"
  by (induction ps) auto

lemma obj_set_fresh:
  assumes "k \<noteq> ''__proto__''" and "k \<notin> set (map fst (own_props ob))"
  shows "obj_set ob k v = ob\<lparr>own_props := own_props ob @ [(k, v)]\<rparr>"
  using assms by (simp add: obj_set_def put_prop_fresh)

lemma foldl_forEach_plain:
  assumes "distinct (map fst (own_props ob) @ map fst (nonempty_key_pairs rows))"
    and "''__proto__'' \<notin> set (map fst (nonempty_key_pairs rows))"
  shows "foldl forEach_row ob rows = ob\<lparr>own_props := own_props ob @ nonempty_key_pairs rows\<rparr>"
  using assms
proof (induction rows arbitrary: ob)
  case Nil
  then show ?case by simp
next
  case (Cons r rs)
  show ?case
  proof (cases "type_row r \<noteq> TObject \<and> type_row r \<noteq> TArray \<and> truthy (key r)")
    case False
    then have 1: "forEach_row ob r = ob"
      by (auto simp: forEach_row_def truthy_def split: option.splits)
    from False have 2: "nonempty_key_pairs (r # rs) = nonempty_key_pairs rs" by auto
    from Cons.IH[of ob] Cons.prems show ?thesis unfolding 2 by (simp add: 1)
  next
    case True
    then obtain k where k: "key r = Some k" "k \<noteq> []"
      by (auto simp: truthy_def split: option.splits)
    with True have 2: "nonempty_key_pairs (r # rs) = (k, value_row r) # nonempty_key_pairs rs"
      by simp
    from Cons.prems have fresh: "k \<noteq> ''__proto__''" "k \<notin> set (map fst (own_props ob))"
      unfolding 2 by auto
    from True k have 1: "forEach_row ob r = ob\<lparr>own_props := own_props ob @ [(k, value_row r)]\<rparr>"
      using obj_set_fresh[OF fresh] by (simp add: forEach_row_def)
    have "foldl forEach_row (forEach_row ob r) rs
        = (forEach_row ob r)\<lparr>own_props := own_props (forEach_row ob r) @ nonempty_key_pairs rs\<rparr>"
      using Cons.prems unfolding 2 1 by (intro Cons.IH) auto
    then show ?thesis unfolding 2 by (simp add: 1)
  qed
qed

lemma own_entries_plain:
  assumes "list_all (\<lambda>k. \<not> is_array_index k) (map fst (own_props ob))"
  shows "own_entries ob = own_props ob"
proof -
  from assms have "\<forall>e \<in> set (own_props ob). \<not> is_array_index (fst e)"
    by (simp add: list_all_iff)
  then have "filter (\<lambda>e. is_array_index (fst e)) (own_props ob) = []"
    and "filter (\<lambda>e. \<not> is_array_index (fst e)) (own_props ob) = own_props ob"
    by (simp_all add: filter_empty_conv filter_id_conv)
  then show ?thesis by (simp add: own_entries_def)
qed

text \<open>
  C5, as the code has it. For every row list that is not a single row with an absent or
  empty key, and in which the non-empty keys of the rows that are no containers are
  pairwise distinct, no array indices and not \<open>__proto__\<close>, \<open>normalizeNodeData\<close>
  returns the 2-space pretty-printed object literal whose entries are exactly the
  (key, value) pairs of these rows, in input order.
\<close>

theorem normalize_projects_plain_keys:
  assumes "\<not> single_keyless rows" and "plain_keys (map fst (nonempty_key_pairs rows))"
  shows "normalizeNodeData (Some rows) = SerializeJSONObject (nonempty_key_pairs rows)"
proof (cases "rows = []")
  case True
  then show ?thesis by (simp add: normalizeNodeData_def SerializeJSONObject_def)
next
  case False
  let ?ps = "nonempty_key_pairs rows"
  from assms(2) have d: "distinct (map fst ?ps)"
    and p: "''__proto__'' \<notin> set (map fst ?ps)"
    and i: "list_all (\<lambda>k. \<not> is_array_index k) (map fst ?ps)"
    by (auto simp: plain_keys_def list_all_iff)
  have "foldl forEach_row empty_object rows = empty_object\<lparr>own_props := ?ps\<rparr>"
    using foldl_forEach_plain[of empty_object rows] d p by (simp add: empty_object_def)
  moreover have "own_entries (empty_object\<lparr>own_props := ?ps\<rparr>) = ?ps"
    using own_entries_plain[of "empty_object\<lparr>own_props := ?ps\<rparr>"] i by simp
  ultimately have "JSON_stringify_object (foldl forEach_row empty_object rows)
      = SerializeJSONObject ?ps"
    by (simp add: JSON_stringify_object_def)
  with False assms(1) show ?thesis
    by (auto simp: normalizeNodeData_def single_keyless_def)
qed

lemmas normalize_eval = normalizeNodeData_def truthy_def forEach_row_def obj_set_def
  empty_object_def JSON_stringify_object_def own_entries_def is_array_index_def
  string_to_nat_def digit_value_def dec.simps digit_char_def SerializeJSONObject_def
  json_member_def QuoteJSONString_def json_escape_char_def Number_toString_def

theorem normalize_projects_plain_keys_witness:
  "\<not> single_keyless rows_person \<and>
   plain_keys (map fst (nonempty_key_pairs rows_person)) \<and>
   normalizeNodeData (Some rows_person)
     = SerializeJSONObject [(''name'', VString ''x''), (''age'', VNumber 30)]"
proof -
  have 1: "\<not> is_array_index ''name''"
    by (simp add: is_array_index_def string_to_nat_def digit_value_def dec.simps digit_char_def)
  have 2: "\<not> is_array_index ''age''"
    by (simp add: is_array_index_def string_to_nat_def digit_value_def dec.simps digit_char_def)
  have ps: "nonempty_key_pairs rows_person = [(''name'', VString ''x''), (''age'', VNumber 30)]"
    by (simp add: rows_person_def truthy_def)
  from 1 2 have pk: "plain_keys (map fst (nonempty_key_pairs rows_person))"
    by (simp add: ps plain_keys_def)
  have sk: "\<not> single_keyless rows_person"
    by (simp add: single_keyless_def rows_person_def)
  from sk pk normalize_projects_plain_keys[OF sk pk] show ?thesis by (simp add: ps)
qed

lemma normalize_blank_key_example:
  "defined_key_pairs rows_blank_key = [([], VNumber 1), (''a'', VNumber 2)] \<and>
   normalizeNodeData (Some rows_blank_key) = SerializeJSONObject [(''a'', VNumber 2)] \<and>
   SerializeJSONObject [(''a'', VNumber 2)]
     \<noteq> SerializeJSONObject [([], VNumber 1), (''a'', VNumber 2)]"
  by (simp add: rows_blank_key_def normalize_eval)

lemma normalize_duplicate_key_example:
  "defined_key_pairs rows_duplicate_key = [(''a'', VNumber 1), (''a'', VNumber 2)] \<and>
   normalizeNodeData (Some rows_duplicate_key) = SerializeJSONObject [(''a'', VNumber 2)] \<and>
   SerializeJSONObject [(''a'', VNumber 2)]
     \<noteq> SerializeJSONObject [(''a'', VNumber 1), (''a'', VNumber 2)]"
  by (simp add: rows_duplicate_key_def normalize_eval)

lemma normalize_index_key_example:
  "defined_key_pairs rows_index_key = [(''b'', VNumber 1), (''1'', VNumber 2)] \<and>
   normalizeNodeData (Some rows_index_key)
     = SerializeJSONObject [(''1'', VNumber 2), (''b'', VNumber 1)] \<and>
   SerializeJSONObject [(''1'', VNumber 2), (''b'', VNumber 1)]
     \<noteq> SerializeJSONObject [(''b'', VNumber 1), (''1'', VNumber 2)]"
  by (simp add: rows_index_key_def normalize_eval)

lemma normalize_proto_key_example:
  "defined_key_pairs rows_proto_key = [(''__proto__'', VNumber 1), (''a'', VNumber 2)] \<and>
   normalizeNodeData (Some rows_proto_key) = SerializeJSONObject [(''a'', VNumber 2)] \<and>
   SerializeJSONObject [(''a'', VNumber 2)]
     \<noteq> SerializeJSONObject [(''__proto__'', VNumber 1), (''a'', VNumber 2)]"
  by (simp add: rows_proto_key_def normalize_eval)

text \<open>
  C5 as stated fails on row lists of two rows: a row with the key \<open>""\<close> has a defined
  key and is left out; of two rows with the same key the object keeps one entry, with
  the later value; a key that is an array index is listed before the others; the key
  \<open>__proto__\<close> creates no entry.
\<close>

theorem normalize_not_defined_key_projection:
  "length rows_blank_key = 2 \<and>
   normalizeNodeData (Some rows_blank_key)
     \<noteq> SerializeJSONObject (defined_key_pairs rows_blank_key) \<and>
   length rows_duplicate_key = 2 \<and>
   normalizeNodeData (Some rows_duplicate_key)
     \<noteq> SerializeJSONObject (defined_key_pairs rows_duplicate_key) \<and>
   length rows_index_key = 2 \<and>
   normalizeNodeData (Some rows_index_key)
     \<noteq> SerializeJSONObject (defined_key_pairs rows_index_key) \<and>
   length rows_proto_key = 2 \<and>
   normalizeNodeData (Some rows_proto_key)
     \<noteq> SerializeJSONObject (defined_key_pairs rows_proto_key)"
proof -
  have "length rows_blank_key = 2" "length rows_duplicate_key = 2"
    "length rows_index_key = 2" "length rows_proto_key = 2"
    by (simp_all add: rows_blank_key_def rows_duplicate_key_def rows_index_key_def
          rows_proto_key_def)
  moreover have "normalizeNodeData (Some rows_blank_key)
      \<noteq> SerializeJSONObject (defined_key_pairs rows_blank_key)"
    using normalize_blank_key_example by simp
  moreover have "normalizeNodeData (Some rows_duplicate_key)
      \<noteq> SerializeJSONObject (defined_key_pairs rows_duplicate_key)"
    using normalize_duplicate_key_example by simp
  moreover have "normalizeNodeData (Some rows_index_key)
      \<noteq> SerializeJSONObject (defined_key_pairs rows_index_key)"
    using normalize_index_key_example by simp
  moreover have "normalizeNodeData (Some rows_proto_key)
      \<noteq> SerializeJSONObject (defined_key_pairs rows_proto_key)"
    using normalize_proto_key_example by simp
  ultimately show ?thesis by simp
qed

section \<open>The Selection Reconciler\<close>

lemma stringify_matches:
  "(JSON_stringify_path (path n) = JSON_stringify_path (Some targetPath)) = path_matches n targetPath"
proof (cases "path n")
  case None
  then show ?thesis by (simp add: path_matches_def JSON_stringify_path_def)
next
  case (Some p)
  then show ?thesis
    using JSON_stringify_path_inj[of p targetPath]
    by (simp add: path_matches_def path_equal_iff)
qed

lemma reselect_find:
  "reselect st nodeData =
     (case find (\<lambda>n. path_matches n (path_or_empty nodeData)) (nodes st) of
        None \<Rightarrow> st
      | Some matched \<Rightarrow> st\<lparr>selectedNode := Some matched\<rparr>)"
  by (simp add: reselect_def stringify_matches)

text \<open>
  C3. The comparison of the two \<open>JSON.stringify\<close> texts is the structural equality of
  the data model, for every two paths; so a node of the rebuilt tree passes the test of
  the reconciler exactly if it has a path structurally equal to the target, and the
  reconciler selects the first such node.
\<close>

theorem reselect_matches_structurally_equal_path:
  "(JSON_stringify_path (Some p) = JSON_stringify_path (Some q)) = path_equal p q \<and>
   (JSON_stringify_path (path n) = JSON_stringify_path (Some targetPath))
     = path_matches n targetPath \<and>
   selectedNode (reselect st nodeData) =
     (case find (\<lambda>n. path_matches n (path_or_empty nodeData)) (nodes st) of
        None \<Rightarrow> selectedNode st
      | Some matched \<Rightarrow> Some matched)"
  by (simp add: JSON_stringify_path_inj path_equal_iff stringify_matches reselect_find
        split: option.split)

section \<open>The Save handler\<close>

lemma json_setJson: "json (setJson env updated st) = Some updated"
  by (simp add: setJson_def)

lemma nodes_setJson: "nodes (setJson env updated st) = parser env updated"
  by (simp add: setJson_def)

lemma selectedNode_setJson: "selectedNode (setJson env updated st) = selectedNode st"
  by (simp add: setJson_def)

lemma update_editor_graph:
  "json (update_editor env updated st) = json st \<and>
   nodes (update_editor env updated st) = nodes st \<and>
   selectedNode (update_editor env updated st) = selectedNode st"
  by (simp add: update_editor_def split: option.split)

lemma json_reselect: "json (reselect st nodeData) = json st"
  by (simp add: reselect_def Let_def split: option.split)

lemma nodes_reselect: "nodes (reselect st nodeData) = nodes st"
  by (simp add: reselect_def Let_def split: option.split)

lemma save_onClick_edited:
  assumes "selectedNode st = Some nodeData" and "edited_text env st nodeData = Some updated"
  shows "save_onClick env st =
           (reselect (update_editor env updated (setJson env updated st)) nodeData)
             \<lparr>editing := False\<rparr>"
  using assms by (simp add: save_onClick_def)

lemma save_onClick_failed:
  assumes "selectedNode st = Some nodeData" and "edited_text env st nodeData = None"
  shows "save_onClick env st = st\<lparr>editing := False\<rparr>"
  using assms by (simp add: save_onClick_def)

lemma edited_text_Some:
  assumes "patch_field env (json_or_empty st) (path_or_empty nodeData @ [Key ''name''])
             (nameValue st) = Some t1"
  shows "edited_text env st nodeData =
           patch_field env t1 (path_or_empty nodeData @ [Key ''color'']) (colorValue st)"
  using assms by (simp add: edited_text_def)

lemma edited_text_None:
  assumes "patch_field env (json_or_empty st) (path_or_empty nodeData @ [Key ''name''])
             (nameValue st) = None"
  shows "edited_text env st nodeData = None"
  using assms by (simp add: edited_text_def)

text \<open>
  C1, as the code has it. On commit the name edit is computed on the current document
  text and the color edit on the text that already contains the name edit; the result of
  the second edit is published and the tree is rebuilt from it. For a Patch Applier that
  keeps its contract on the two members, a valid document and a base path that leads in
  it to a node that holds members, both edits succeed and the published text re-reads
  with both new values.
\<close>

theorem save_applies_name_then_color:
  assumes contract: "patch_contract env valid resolves member [''name'', ''color'']"
    and sel: "selectedNode st = Some nodeData"
    and valid: "valid (json_or_empty st)"
    and resolves: "resolves (json_or_empty st) (path_or_empty nodeData)"
  shows "\<exists>t1 t2.
           patch_field env (json_or_empty st) (path_or_empty nodeData @ [Key ''name''])
             (nameValue st) = Some t1 \<and>
           patch_field env t1 (path_or_empty nodeData @ [Key ''color''])
             (colorValue st) = Some t2 \<and>
           json (save_onClick env st) = Some t2 \<and>
           nodes (save_onClick env st) = parser env t2 \<and>
           member t2 (path_or_empty nodeData @ [Key ''name'']) = Some (nameValue st) \<and>
           member t2 (path_or_empty nodeData @ [Key ''color'']) = Some (colorValue st)"
proof -
  let ?p = "path_or_empty nodeData"
  from contract valid resolves obtain t1 where
    t1: "patch_field env (json_or_empty st) (?p @ [Key ''name'']) (nameValue st) = Some t1"
    and v1: "valid t1" and r1: "resolves t1 ?p"
    and n1: "member t1 (?p @ [Key ''name'']) = Some (nameValue st)"
    unfolding patch_contract_def by (metis list.set_intros(1))
  have "''color'' \<in> set [''name'', ''color'']" by simp
  with contract v1 r1 obtain t2 where
    t2: "patch_field env t1 (?p @ [Key ''color'']) (colorValue st) = Some t2"
    and c2: "member t2 (?p @ [Key ''color'']) = Some (colorValue st)"
    and frame: "\<forall>g. g \<noteq> ''color'' \<longrightarrow> member t2 (?p @ [Key g]) = member t1 (?p @ [Key g])"
    unfolding patch_contract_def by metis
  have "''name'' \<noteq> ''color''" by simp
  with frame n1 have n2: "member t2 (?p @ [Key ''name'']) = Some (nameValue st)" by simp
  from t1 t2 have e: "edited_text env st nodeData = Some t2" by (simp add: edited_text_Some)
  with sel have j: "json (save_onClick env st) = Some t2"
    by (simp add: save_onClick_edited json_reselect update_editor_graph json_setJson)
  from sel e have g: "nodes (save_onClick env st) = parser env t2"
    by (simp add: save_onClick_edited nodes_reselect update_editor_graph nodes_setJson)
  from t1 t2 j g n2 c2 show ?thesis by blast
qed

subsection \<open>The example format keeps the contract\<close>

lemma flat_parse_print: "flat_parse (flat_print d) = Some d"
proof -
  let ?n = "length (fst d)"
  let ?ones = "replicate ?n (CHR ''1'')"
  have t: "flat_print d = ?ones @ CHR ''0'' # fst d @ snd d"
    by (simp add: flat_print_def)
  have "takeWhile (\<lambda>c. c = CHR ''1'') (?ones @ CHR ''0'' # fst d @ snd d)
      = ?ones @ takeWhile (\<lambda>c. c = CHR ''1'') (CHR ''0'' # fst d @ snd d)"
    by (intro takeWhile_append2) simp
  then have n: "length (takeWhile (\<lambda>c. c = CHR ''1'') (flat_print d)) = ?n"
    by (simp add: t)
  have z: "flat_print d ! ?n = CHR ''0''"
    by (simp add: t nth_append)
  have r: "drop (Suc ?n) (flat_print d) = fst d @ snd d"
    by (simp add: t)
  have l: "?n < length (flat_print d)"
    by (simp add: t)
  show ?thesis
    unfolding flat_parse_def n Let_def r using z l by simp
qed

lemma patch_field_flat:
  "patch_field flat_env t p v = flat_modify t p v"
  by (simp add: patch_field_def flat_env_def split: option.split)

lemma flat_contract:
  "patch_contract flat_env flat_valid flat_resolves flat_member [''name'', ''color'']"
  unfolding patch_contract_def
proof (intro allI impI)
  fix t p f v
  assume a: "f \<in> set [''name'', ''color''] \<and> flat_valid t \<and> flat_resolves t p"
  then obtain d where d: "flat_parse t = Some d" and p: "p = []"
    by (auto simp: flat_valid_def flat_resolves_def)
  from a consider "f = ''name''" | "f = ''color''" by auto
  then show "\<exists>t'. patch_field flat_env t (p @ [Key f]) v = Some t' \<and> flat_valid t' \<and>
      flat_resolves t' p \<and> flat_member t' (p @ [Key f]) = Some v \<and>
      (\<forall>g. g \<noteq> f \<longrightarrow> flat_member t' (p @ [Key g]) = flat_member t (p @ [Key g]))"
  proof cases
    case 1
    show ?thesis
      by (rule exI[of _ "flat_print (v, snd d)"])
         (simp add: 1 p d patch_field_flat flat_modify_def flat_valid_def flat_resolves_def
            flat_member_def flat_parse_print)
  next
    case 2
    show ?thesis
      by (rule exI[of _ "flat_print (fst d, v)"])
         (simp add: 2 p d patch_field_flat flat_modify_def flat_valid_def flat_resolves_def
            flat_member_def flat_parse_print)
  qed
qed

lemma example_text: "json_or_empty example_stores = flat_print (''a'', ''red'')"
  by (simp add: json_or_empty_def example_stores_def)

lemma example_path: "path_or_empty example_node = []"
  by (simp add: path_or_empty_def example_node_def)

lemma example_drafts:
  "nameValue example_stores = ''b''" "colorValue example_stores = ''blue''"
  by (simp_all add: example_stores_def)

theorem save_applies_name_then_color_witness:
  "patch_contract flat_env flat_valid flat_resolves flat_member [''name'', ''color''] \<and>
   selectedNode example_stores = Some example_node \<and>
   flat_valid (json_or_empty example_stores) \<and>
   flat_resolves (json_or_empty example_stores) (path_or_empty example_node) \<and>
   (\<exists>t1 t2.
      patch_field flat_env (json_or_empty example_stores)
        (path_or_empty example_node @ [Key ''name'']) (nameValue example_stores) = Some t1 \<and>
      patch_field flat_env t1
        (path_or_empty example_node @ [Key ''color'']) (colorValue example_stores) = Some t2 \<and>
      json (save_onClick flat_env example_stores) = Some t2 \<and>
      nodes (save_onClick flat_env example_stores) = parser flat_env t2 \<and>
      flat_member t2 (path_or_empty example_node @ [Key ''name''])
        = Some (nameValue example_stores) \<and>
      flat_member t2 (path_or_empty example_node @ [Key ''color''])
        = Some (colorValue example_stores))"
proof -
  have s: "selectedNode example_stores = Some example_node"
    by (simp add: example_stores_def)
  have v: "flat_valid (json_or_empty example_stores)"
    by (simp add: example_text flat_valid_def flat_parse_print)
  have r: "flat_resolves (json_or_empty example_stores) (path_or_empty example_node)"
    using v by (simp add: flat_resolves_def example_path)
  from save_applies_name_then_color[OF flat_contract s v r] flat_contract s v r
  show ?thesis by blast
qed

subsection \<open>A node that holds no members\<close>

lemma fruits_tree:
  "parse_document fruits_text = Some (JObject [(''fruits'', JArray [JString ''apple''])])"
  by (simp add: parse_document_def fruits_text_def skip_blanks_def)

lemma fruits_selection:
  "selectedNode fruits_stores = Some apple_node"
  "json_or_empty fruits_stores = fruits_text"
  "path_or_empty apple_node = [Key ''fruits'', Index 0]"
  "nameValue fruits_stores = ''b''"
  by (simp_all add: fruits_stores_def json_or_empty_def path_or_empty_def apple_node_def)

lemma patch_field_tree: "patch_field tree_env t p v = tree_modify t p v"
  by (simp add: patch_field_def tree_env_def flat_env_def split: option.split)

lemma tree_env_object_node:
  "tree_valid nested_text \<and> tree_resolves nested_text [Key ''a''] \<and>
   patch_field tree_env nested_text [Key ''a'', Key ''name''] ''y''
     = Some (print_tree (JObject [(''a'', JObject [(''name'', JString ''y'')])])) \<and>
   tree_member (print_tree (JObject [(''a'', JObject [(''name'', JString ''y'')])]))
     [Key ''a'', Key ''name''] = Some ''y''"
  by (simp add: patch_field_tree tree_modify_def tree_valid_def tree_resolves_def
        tree_member_def parse_document_def nested_text_def skip_blanks_def)

text \<open>
  C1 as stated fails at a node that holds no members. The document
  \<open>{"fruits": ["apple"]}\<close> is valid and the base path \<open>fruits, 0\<close> resolves in it, to
  the string \<open>apple\<close>; there \<open>modify\<close> throws on the name edit (as it does at the array
  \<open>fruits\<close>), the handler publishes nothing, and the document text keeps no member
  \<open>name\<close> with the new value.
\<close>

theorem save_at_scalar_node_publishes_nothing:
  "tree_valid fruits_text \<and>
   tree_resolves fruits_text [Key ''fruits'', Index 0] \<and>
   selectedNode fruits_stores = Some apple_node \<and>
   json_or_empty fruits_stores = fruits_text \<and>
   path_or_empty apple_node = [Key ''fruits'', Index 0] \<and>
   patch_field tree_env fruits_text [Key ''fruits'', Index 0, Key ''name''] ''b'' = None \<and>
   patch_field tree_env fruits_text [Key ''fruits'', Key ''name''] ''b'' = None \<and>
   save_onClick tree_env fruits_stores = fruits_stores\<lparr>editing := False\<rparr> \<and>
   json (save_onClick tree_env fruits_stores) = Some fruits_text \<and>
   tree_member fruits_text [Key ''fruits'', Index 0, Key ''name''] \<noteq> Some ''b''"
proof -
  have v: "tree_valid fruits_text"
    by (simp add: tree_valid_def fruits_tree)
  have r: "tree_resolves fruits_text [Key ''fruits'', Index 0]"
    by (simp add: tree_resolves_def fruits_tree)
  have n: "patch_field tree_env fruits_text [Key ''fruits'', Index 0, Key ''name''] ''b'' = None"
    by (simp add: patch_field_tree tree_modify_def fruits_tree)
  have a: "patch_field tree_env fruits_text [Key ''fruits'', Key ''name''] ''b'' = None"
    by (simp add: patch_field_tree tree_modify_def fruits_tree)
  from n have "edited_text tree_env fruits_stores apple_node = None"
    by (intro edited_text_None) (simp add: fruits_selection)
  with fruits_selection(1)
  have s: "save_onClick tree_env fruits_stores = fruits_stores\<lparr>editing := False\<rparr>"
    by (rule save_onClick_failed)
  have j: "json (save_onClick tree_env fruits_stores) = Some fruits_text"
    unfolding s by (simp add: fruits_stores_def)
  have m: "tree_member fruits_text [Key ''fruits'', Index 0, Key ''name''] \<noteq> Some ''b''"
    by (simp add: tree_member_def fruits_tree)
  from v r fruits_selection(1-3) n a s j m show ?thesis by simp
qed

subsection \<open>A failing field\<close>

text \<open>
  C2, as the code has it. The two edits and the publication are in one \<open>try\<close>: when
  the edit of either field fails, the commit is abandoned as a whole. The next field is
  not applied, nothing is published (an applied name edit is dropped with the local
  text), the stores and the selection stay as they were, and the modal leaves the
  editing mode.
\<close>

theorem failed_field_abandons_commit:
  assumes "selectedNode st = Some nodeData"
    and "field_edit_fails env (json_or_empty st) (path_or_empty nodeData @ [Key ''name''])
           (nameValue st)
         \<or> (\<exists>updated1.
               patch_field env (json_or_empty st) (path_or_empty nodeData @ [Key ''name''])
                 (nameValue st) = Some updated1 \<and>
               field_edit_fails env updated1 (path_or_empty nodeData @ [Key ''color''])
                 (colorValue st))"
  shows "save_onClick env st = st\<lparr>editing := False\<rparr>"
proof -
  from assms(2) have "edited_text env st nodeData = None"
    by (auto simp: field_edit_fails_def edited_text_None edited_text_Some)
  with assms(1) show ?thesis by (rule save_onClick_failed)
qed

lemma no_color_name_edit:
  "patch_field no_color_env (json_or_empty example_stores)
     (path_or_empty example_node @ [Key ''name'']) (nameValue example_stores)
   = Some (flat_print (''b'', ''red''))"
  by (simp add: example_text example_path example_drafts patch_field_def no_color_env_def
        flat_env_def flat_modify_def flat_parse_print)

lemma no_color_color_edit:
  "field_edit_fails no_color_env t (path_or_empty example_node @ [Key ''color'']) v"
  by (simp add: field_edit_fails_def example_path patch_field_def no_color_env_def flat_env_def)

theorem failed_field_abandons_commit_witness:
  "selectedNode example_stores = Some example_node \<and>
   patch_field no_color_env (json_or_empty example_stores)
     (path_or_empty example_node @ [Key ''name'']) (nameValue example_stores)
     = Some (flat_print (''b'', ''red'')) \<and>
   field_edit_fails no_color_env (flat_print (''b'', ''red''))
     (path_or_empty example_node @ [Key ''color'']) (colorValue example_stores) \<and>
   save_onClick no_color_env example_stores = example_stores\<lparr>editing := False\<rparr>"
proof -
  have s: "selectedNode example_stores = Some example_node"
    by (simp add: example_stores_def)
  from failed_field_abandons_commit[of example_stores example_node no_color_env, OF s]
    no_color_name_edit no_color_color_edit s
  show ?thesis by blast
qed

text \<open>
  C2 as stated fails: with a \<open>modify\<close> that throws on the member \<open>color\<close>, the name
  edit succeeds and the color edit fails; the best-effort commit would publish the text
  with the new name, the handler publishes nothing and the document text stays as it
  was.
\<close>

theorem commit_not_best_effort:
  "selectedNode example_stores = Some example_node \<and>
   patch_field no_color_env (json_or_empty example_stores)
     (path_or_empty example_node @ [Key ''name'']) (nameValue example_stores)
     = Some (flat_print (''b'', ''red'')) \<and>
   field_edit_fails no_color_env (flat_print (''b'', ''red''))
     (path_or_empty example_node @ [Key ''color'']) (colorValue example_stores) \<and>
   json (save_best_effort no_color_env example_stores) = Some (flat_print (''b'', ''red'')) \<and>
   json (save_onClick no_color_env example_stores) = Some (flat_print (''a'', ''red'')) \<and>
   json (save_onClick no_color_env example_stores)
     \<noteq> json (save_best_effort no_color_env example_stores)"
proof -
  have s: "selectedNode example_stores = Some example_node"
    by (simp add: example_stores_def)
  have f: "field_edit_fails no_color_env (flat_print (''b'', ''red''))
     (path_or_empty example_node @ [Key ''color'']) (colorValue example_stores)"
    by (rule no_color_color_edit)
  have e: "edited_text no_color_env example_stores example_node = None"
    using no_color_name_edit f by (simp add: edited_text_Some field_edit_fails_def)
  have c: "json (save_onClick no_color_env example_stores) = Some (flat_print (''a'', ''red''))"
    using s e by (simp add: save_onClick_failed) (simp add: example_stores_def)
  have b: "json (save_best_effort no_color_env example_stores) = Some (flat_print (''b'', ''red''))"
    using s no_color_name_edit f
    by (simp add: save_best_effort_def Let_def patch_or_skip_def field_edit_fails_def
          json_reselect update_editor_graph json_setJson)
  have "flat_print (''a'', ''red'') \<noteq> flat_print (''b'', ''red'')"
    by (simp add: flat_print_def)
  with s no_color_name_edit f c b show ?thesis by simp
qed

subsection \<open>Reconciliation\<close>

lemma reselect_miss:
  assumes "\<forall>n \<in> set (nodes st). \<not> path_matches n (path_or_empty nodeData)"
  shows "reselect st nodeData = st"
proof -
  from assms have "find (\<lambda>n. path_matches n (path_or_empty nodeData)) (nodes st) = None"
    by (simp add: find_None_iff)
  then show ?thesis by (simp add: reselect_find)
qed

text \<open>
  C4. When the commit has published the edited text and no node of the rebuilt tree has
  a path equal to the target path, the selected node stays the one it was; the handler
  ends as after a match, with the text published and the editing mode left, and no
  error.
\<close>

theorem reselect_miss_keeps_selection:
  assumes "selectedNode st = Some nodeData"
    and "edited_text env st nodeData = Some updated"
    and "\<forall>n \<in> set (parser env updated). \<not> path_matches n (path_or_empty nodeData)"
  shows "selectedNode (save_onClick env st) = Some nodeData \<and>
         save_onClick env st =
           (update_editor env updated (setJson env updated st))\<lparr>editing := False\<rparr>"
proof -
  let ?st = "update_editor env updated (setJson env updated st)"
  have "nodes ?st = parser env updated"
    by (simp add: update_editor_graph nodes_setJson)
  with assms(3) have "reselect ?st nodeData = ?st"
    by (intro reselect_miss) simp
  with assms(1,2) have r: "save_onClick env st = ?st\<lparr>editing := False\<rparr>"
    by (simp add: save_onClick_edited)
  have "selectedNode ?st = selectedNode st"
    by (simp add: update_editor_graph selectedNode_setJson)
  with r assms(1) show ?thesis by simp
qed

theorem reselect_miss_keeps_selection_witness:
  "selectedNode example_stores = Some example_node \<and>
   edited_text no_nodes_env example_stores example_node = Some (flat_print (''b'', ''blue'')) \<and>
   parser no_nodes_env (flat_print (''b'', ''blue'')) = [] \<and>
   selectedNode (save_onClick no_nodes_env example_stores) = Some example_node \<and>
   save_onClick no_nodes_env example_stores =
     (update_editor no_nodes_env (flat_print (''b'', ''blue''))
        (setJson no_nodes_env (flat_print (''b'', ''blue'')) example_stores))
       \<lparr>editing := False\<rparr>"
proof -
  have s: "selectedNode example_stores = Some example_node"
    by (simp add: example_stores_def)
  have e: "edited_text no_nodes_env example_stores example_node = Some (flat_print (''b'', ''blue''))"
    by (simp add: edited_text_def example_text example_path example_drafts patch_field_def
          no_nodes_env_def flat_env_def flat_modify_def flat_parse_print)
  have m: "\<forall>n \<in> set (parser no_nodes_env (flat_print (''b'', ''blue''))).
      \<not> path_matches n (path_or_empty example_node)"
    by (simp add: no_nodes_env_def)
  have p: "parser no_nodes_env (flat_print (''b'', ''blue'')) = []"
    by (simp add: no_nodes_env_def)
  from reselect_miss_keeps_selection[OF s e m] s e p show ?thesis by blast
qed

end
